theory Spec2Isabelle
  imports Main
begin

section \<open>The Win32 implementation of \<open>llvm::sys::Path\<close>\<close>

text \<open>
  A shallow embedding of \<^verbatim>\<open>llvm/lib/System/Win32/Path.cpp\<close>. The class has one data
  member, the \<^verbatim>\<open>std::string path\<close>; a \<^verbatim>\<open>char\<close> is a byte, as HOL's \<open>char\<close> is. Member
  functions that mutate the object take the object and return the value the C++ function
  returns together with the object afterwards. A \<^verbatim>\<open>size_t\<close> position is a \<open>nat\<close>, and
  \<^verbatim>\<open>std::string::npos\<close> is \<open>None\<close>.
\<close>

record Path =
  path :: string

subsection \<open>The \<^verbatim>\<open>std::string\<close> operations the file uses\<close>

text \<open>
  \<^verbatim>\<open>s.rfind(c, pos)\<close>: the greatest index \<open>i \<le> pos\<close> with \<open>s[i] == c\<close>, searching downwards
  from \<open>min pos (size - 1)\<close>; \<open>npos\<close> when there is none or the string is empty.
\<close>

fun rfind_loop :: "string \<Rightarrow> char \<Rightarrow> nat \<Rightarrow> nat option" where
  "rfind_loop s c 0 = None"
| "rfind_loop s c (Suc i) = (if s ! i = c then Some i else rfind_loop s c i)"

definition rfind :: "string \<Rightarrow> char \<Rightarrow> nat \<Rightarrow> nat option" where
  "rfind s c pos =
     (if s = [] then None else rfind_loop s c (Suc (min (length s - 1) pos)))"

text \<open>
  \<^verbatim>\<open>s.find_first_of(chars)\<close>: the least index whose character occurs in \<open>chars\<close>.
\<close>

fun find_first_of_from :: "string \<Rightarrow> string \<Rightarrow> nat \<Rightarrow> nat option" where
  "find_first_of_from [] cs i = None"
| "find_first_of_from (x # xs) cs i =
     (if x \<in> set cs then Some i else find_first_of_from xs cs (Suc i))"

definition find_first_of :: "string \<Rightarrow> string \<Rightarrow> nat option" where
  "find_first_of s cs = find_first_of_from s cs 0"

text \<open>
  \<^verbatim>\<open>s.erase(pos)\<close> keeps the first \<open>pos\<close> characters. Every call in the file passes a
  position that \<open>rfind\<close> returned (or its successor), so \<open>pos \<le> size\<close> and the call
  does not throw.
\<close>

definition erase :: "string \<Rightarrow> nat \<Rightarrow> string" where
  "erase s pos = take pos s"

text \<open>\<^verbatim>\<open>isalpha\<close> in the C locale: the 52 ASCII letters.\<close>

definition isalpha :: "char \<Rightarrow> bool" where
  "isalpha c =
     (let n = (of_char c :: nat) in (65 \<le> n \<and> n \<le> 90) \<or> (97 \<le> n \<and> n \<le> 122))"

subsection \<open>\<^verbatim>\<open>FlipBackSlashes\<close> and \<^verbatim>\<open>Path::isValid\<close>\<close>

definition FlipBackSlashes :: "string \<Rightarrow> string" where
  "FlipBackSlashes s = map (\<lambda>c. if c = CHR 0x5C then CHR ''/'' else c) s"

text \<open>
  The argument of \<^verbatim>\<open>find_first_of\<close> in \<^verbatim>\<open>isValid\<close>: backslash, \<open><\<close>, \<open>>\<close>, the double
  quote, \<open>|\<close> and the control characters \<^verbatim>\<open>\001\<close> to \<^verbatim>\<open>\037\<close> (octal).
\<close>

definition illegal_chars :: string where
  "illegal_chars =
     [CHR 0x5C, CHR ''<'', CHR ''>'', CHR 0x22, CHR ''|'',
      CHR 0x01, CHR 0x02, CHR 0x03, CHR 0x04, CHR 0x05, CHR 0x06, CHR 0x07, CHR 0x08,
      CHR 0x09, CHR 0x0A, CHR 0x0B, CHR 0x0C, CHR 0x0D, CHR 0x0E, CHR 0x0F, CHR 0x10,
      CHR 0x11, CHR 0x12, CHR 0x13, CHR 0x14, CHR 0x15, CHR 0x16, CHR 0x17, CHR 0x18,
      CHR 0x19, CHR 0x1A, CHR 0x1B, CHR 0x1C, CHR 0x1D, CHR 0x1E, CHR 0x1F]"

definition isValid :: "Path \<Rightarrow> bool" where
  "isValid p =
     (if path p = [] then False
      else
        let len = length (path p); pos = rfind (path p) (CHR '':'') len in
        if (case pos of None \<Rightarrow> False
            | Some i \<Rightarrow> i \<noteq> 1 \<or> \<not> isalpha (path p ! 0) \<or> len < 3) then False
        else if find_first_of (path p) illegal_chars \<noteq> None then False
        else if path p ! (len - 1) = CHR ''.'' then False
        else if len \<ge> 2 \<and> path p ! (len - 2) = CHR ''.'' \<and> path p ! (len - 1) = CHR ''/''
          then False
        else if path p ! (len - 1) = CHR '' '' then False
        else if len \<ge> 2 \<and> path p ! (len - 2) = CHR '' '' \<and> path p ! (len - 1) = CHR ''/''
          then False
        else True)"

subsection \<open>Construction\<close>

text \<open>
  \<^verbatim>\<open>Path::Path(std::string unverified_path)\<close>. The constructor either returns normally
  or throws a \<^verbatim>\<open>std::string\<close>; the model returns the member \<open>path\<close> as the constructor
  leaves it, and the thrown message if there is one.
\<close>

definition Path_ctor :: "string \<Rightarrow> Path \<times> string option" where
  "Path_ctor unverified_path =
     (let this = \<lparr>path = FlipBackSlashes unverified_path\<rparr> in
      if unverified_path = [] then (this, None)
      else if isValid this then (this, None)
      else (this\<lparr>path := []\<rparr>, Some (unverified_path @ '': path is not valid'')))"

text \<open>\<^verbatim>\<open>Path()\<close> and \<^verbatim>\<open>Path::clear()\<close> of \<^verbatim>\<open>Path.h\<close>: the empty string.\<close>

definition Path_empty :: Path where
  "Path_empty = \<lparr>path = []\<rparr>"

definition clear :: "Path \<Rightarrow> Path" where
  "clear p = p\<lparr>path := []\<rparr>"

subsection \<open>Mode queries\<close>

definition isFile :: "Path \<Rightarrow> bool" where
  "isFile p = (isValid p \<and> path p ! (length (path p) - 1) \<noteq> CHR ''/'')"

definition isDirectory :: "Path \<Rightarrow> bool" where
  "isDirectory p = (isValid p \<and> path p ! (length (path p) - 1) = CHR ''/'')"

subsection \<open>Setters\<close>

definition setDirectory :: "Path \<Rightarrow> string \<Rightarrow> bool \<times> Path" where
  "setDirectory p a_path =
     (if length a_path = 0 then (False, p)
      else
        let save = p;
            p1 = p\<lparr>path := FlipBackSlashes a_path\<rparr>;
            last = length a_path - 1;
            p2 = (if last \<noteq> 0 \<and> a_path ! last \<noteq> CHR ''/''
                  then p1\<lparr>path := path p1 @ ''/''\<rparr> else p1)
        in if \<not> isValid p2 then (False, p2\<lparr>path := path save\<rparr>) else (True, p2))"

text \<open>The loop \<^verbatim>\<open>while (last > 0 && a_path[last] == '/') last--;\<close> of \<^verbatim>\<open>setFile\<close>.\<close>

fun strip_slashes :: "string \<Rightarrow> nat \<Rightarrow> nat" where
  "strip_slashes a_path 0 = 0"
| "strip_slashes a_path (Suc n) =
     (if a_path ! Suc n = CHR ''/'' then strip_slashes a_path n else Suc n)"

definition setFile :: "Path \<Rightarrow> string \<Rightarrow> bool \<times> Path" where
  "setFile p a_path =
     (if length a_path = 0 then (False, p)
      else
        let save = p;
            p1 = p\<lparr>path := FlipBackSlashes a_path\<rparr>;
            last = strip_slashes a_path (length a_path - 1);
            p2 = p1\<lparr>path := erase (path p1) (last + 1)\<rparr>
        in if \<not> isValid p2 then (False, p2\<lparr>path := path save\<rparr>) else (True, p2))"

subsection \<open>Appending and eliding components\<close>

definition appendDirectory :: "Path \<Rightarrow> string \<Rightarrow> bool \<times> Path" where
  "appendDirectory p dir =
     (if isFile p then (False, p)
      else
        let save = p;
            p1 = p\<lparr>path := path p @ dir\<rparr>;
            p2 = p1\<lparr>path := path p1 @ ''/''\<rparr>
        in if \<not> isValid p2 then (False, p2\<lparr>path := path save\<rparr>) else (True, p2))"

definition elideDirectory :: "Path \<Rightarrow> bool \<times> Path" where
  "elideDirectory p =
     (if isFile p then (False, p)
      else
        case rfind (path p) (CHR ''/'') (length (path p)) of
          None \<Rightarrow> (False, p)
        | Some slashpos \<Rightarrow>
            if slashpos = 0 then (False, p)
            else
              let slashpos' =
                    (if slashpos = length (path p) - 1
                     then rfind (path p) (CHR ''/'') (slashpos - 1)
                     else Some slashpos)
              in case slashpos' of
                   None \<Rightarrow> (False, p)
                 | Some k \<Rightarrow> (True, p\<lparr>path := erase (path p) k\<rparr>))"

definition appendFile :: "Path \<Rightarrow> string \<Rightarrow> bool \<times> Path" where
  "appendFile p file =
     (if \<not> isDirectory p then (False, p)
      else
        let save = p;
            p1 = p\<lparr>path := path p @ file\<rparr>
        in if \<not> isValid p1 then (False, p1\<lparr>path := path save\<rparr>) else (True, p1))"

definition elideFile :: "Path \<Rightarrow> bool \<times> Path" where
  "elideFile p =
     (if isDirectory p then (False, p)
      else
        case rfind (path p) (CHR ''/'') (length (path p)) of
          None \<Rightarrow> (False, p)
        | Some slashpos \<Rightarrow> (True, p\<lparr>path := erase (path p) (slashpos + 1)\<rparr>))"

definition appendSuffix :: "Path \<Rightarrow> string \<Rightarrow> bool \<times> Path" where
  "appendSuffix p suffix =
     (if isDirectory p then (False, p)
      else
        let save = p;
            p1 = p\<lparr>path := path p @ ''.''\<rparr>;
            p2 = p1\<lparr>path := path p1 @ suffix\<rparr>
        in if \<not> isValid p2 then (False, p2\<lparr>path := path save\<rparr>) else (True, p2))"

definition elideSuffix :: "Path \<Rightarrow> bool \<times> Path" where
  "elideSuffix p =
     (if isDirectory p then (False, p)
      else
        let dotpos = rfind (path p) (CHR ''.'') (length (path p));
            slashpos = rfind (path p) (CHR ''/'') (length (path p))
        in case (slashpos, dotpos) of
             (Some s, Some d) \<Rightarrow>
               if d > s then (True, p\<lparr>path := erase (path p) d\<rparr>) else (False, p)
           | _ \<Rightarrow> (False, p))"

subsection \<open>Library search\<close>

text \<open>
  \<^verbatim>\<open>Path::readable\<close> asks the platform for the attributes of the file named by the string
  (\<^verbatim>\<open>GetFileAttributes(path.c_str()) != INVALID_FILE_ATTRIBUTES\<close>). The file system is a
  parameter: \<open>fs s\<close> holds when the platform has attributes for the name \<open>s\<close>.
\<close>

type_synonym filesystem = "string \<Rightarrow> bool"

definition readable :: "filesystem \<Rightarrow> Path \<Rightarrow> bool" where
  "readable fs p = fs (path p)"

definition GetDLLSuffix :: string where
  "GetDLLSuffix = ''dll''"

text \<open>
  \<^verbatim>\<open>IsLibrary\<close> has the same chain of four conditions in both of its branches. Each
  condition is a short-circuit conjunction of calls that mutate \<open>path\<close>:
  \<open>trySuffix\<close> is \<^verbatim>\<open>path.appendSuffix(sfx) && path.readable()\<close>,
  \<open>retrySuffix\<close> is \<^verbatim>\<open>path.elideSuffix() && path.appendSuffix(sfx) && path.readable()\<close>,
  and \<open>probeSuffixes\<close> is the \<^verbatim>\<open>if\<close> / \<^verbatim>\<open>else if\<close> chain; its result is \<open>True\<close> when
  one of the four \<^verbatim>\<open>return true\<close> statements is reached.
\<close>

definition trySuffix :: "filesystem \<Rightarrow> Path \<Rightarrow> string \<Rightarrow> bool \<times> Path" where
  "trySuffix fs p sfx =
     (let (a, p1) = appendSuffix p sfx in
      if a then (readable fs p1, p1) else (False, p1))"

definition retrySuffix :: "filesystem \<Rightarrow> Path \<Rightarrow> string \<Rightarrow> bool \<times> Path" where
  "retrySuffix fs p sfx =
     (let (e, p1) = elideSuffix p in
      if e then trySuffix fs p1 sfx else (False, p1))"

definition probeSuffixes :: "filesystem \<Rightarrow> Path \<Rightarrow> bool \<times> Path" where
  "probeSuffixes fs p =
     (let (r1, p1) = trySuffix fs p GetDLLSuffix in
      if r1 then (True, p1)
      else let (r2, p2) = retrySuffix fs p1 ''a'' in
      if r2 then (True, p2)
      else let (r3, p3) = retrySuffix fs p2 ''o'' in
      if r3 then (True, p3)
      else let (r4, p4) = retrySuffix fs p3 ''bc'' in
      if r4 then (True, p4)
      else (False, p4))"

definition IsLibrary :: "filesystem \<Rightarrow> Path \<Rightarrow> string \<Rightarrow> bool \<times> Path" where
  "IsLibrary fs p basename =
     (let (f, p1) = appendFile p (''lib'' @ basename);
          (found, p') =
            (if f then probeSuffixes fs p1
             else
               let (e, p2) = elideFile p1 in
               if e then
                 (let (f2, p3) = appendFile p2 basename in
                  if f2 then probeSuffixes fs p3 else (False, p3))
               else (False, p2))
      in if found then (True, p') else (False, clear p'))"

text \<open>
  One directory of the search: \<^verbatim>\<open>result.setDirectory(dir) && IsLibrary(result, basename)\<close>.
\<close>

definition tryDirectory :: "filesystem \<Rightarrow> string \<Rightarrow> Path \<Rightarrow> string \<Rightarrow> bool \<times> Path" where
  "tryDirectory fs basename result dir =
     (let (s, r1) = setDirectory result dir in
      if s then IsLibrary fs r1 basename else (False, r1))"

text \<open>The \<^verbatim>\<open>for\<close> loop over \<^verbatim>\<open>LibPaths\<close>; \<open>True\<close> when it returns from inside the loop.\<close>

fun searchLibPaths :: "filesystem \<Rightarrow> string \<Rightarrow> Path \<Rightarrow> string list \<Rightarrow> bool \<times> Path" where
  "searchLibPaths fs basename result [] = (False, result)"
| "searchLibPaths fs basename result (I # rest) =
     (let (found, r1) = tryDirectory fs basename result I in
      if found then (True, r1) else searchLibPaths fs basename r1 rest)"

definition GetLibraryPath :: "filesystem \<Rightarrow> string \<Rightarrow> string list \<Rightarrow> Path" where
  "GetLibraryPath fs basename LibPaths =
     (let result = Path_empty;
          (found, r1) = searchLibPaths fs basename result LibPaths in
      if found then r1
      else let (f2, r2) = tryDirectory fs basename r1 ''/usr/lib/'' in
      if f2 then r2
      else let (f3, r3) = tryDirectory fs basename r2 ''/lib/'' in
      if f3 then r3
      else clear r3)"

subsection \<open>\<^verbatim>\<open>Path::isBytecodeFile\<close>\<close>

text \<open>
  The function opens a \<^verbatim>\<open>std::ifstream\<close> on the path, reads four characters into a local
  buffer and tests \<^verbatim>\<open>f.bad()\<close>. The stream library and the file are outside the file;
  they are a parameter: \<open>io s n\<close> is the state of a stream opened on the name \<open>s\<close> after
  \<^verbatim>\<open>read(buffer, n)\<close>, namely the characters the read stored (at most \<open>n\<close>) and whether
  \<^verbatim>\<open>badbit\<close> is set. By the rules of the stream library a read that stores fewer than
  \<open>n\<close> characters (the file is shorter, or could not be opened) sets \<^verbatim>\<open>failbit\<close>, and
  \<^verbatim>\<open>badbit\<close> only reports a loss of integrity of the stream; \<open>read_failed\<close> is
  \<^verbatim>\<open>f.fail()\<close>. \<^verbatim>\<open>ThrowErrno\<close> (of \<^verbatim>\<open>Win32.h\<close>) throws its message.
\<close>

record ifstream_state =
  badbit :: bool
  extracted :: string

type_synonym file_io = "string \<Rightarrow> nat \<Rightarrow> ifstream_state"

definition read_failed :: "ifstream_state \<Rightarrow> nat \<Rightarrow> bool" where
  "read_failed f n = (badbit f \<or> length (extracted f) < n)"

datatype error = ThrowErrno string

text \<open>
  Only \<^verbatim>\<open>buffer[0]\<close> is initialised (to 0); \<open>g1\<close>, \<open>g2\<close>, \<open>g3\<close> stand for what the other
  three bytes of the local array hold before the read.
\<close>

definition isBytecodeFile :: "file_io \<Rightarrow> char \<Rightarrow> char \<Rightarrow> char \<Rightarrow> Path \<Rightarrow> error + bool" where
  "isBytecodeFile io g1 g2 g3 p =
     (let buffer0 = [CHR 0x00, g1, g2, g3];
          f = io (path p) 4;
          got = take 4 (extracted f);
          buffer = got @ drop (length got) buffer0
      in if badbit f then Inl (ThrowErrno (''can'' @ [CHR 0x27] @ ''t read file signature''))
         else Inr (buffer = ''llvc'' \<or> buffer = ''llvm''))"

section \<open>Facts about the string operations\<close>

lemma rfind_loop_None: "rfind_loop s c n = None \<longleftrightarrow> (\<forall>i<n. s ! i \<noteq> c)"
  by (induction n) (auto simp: less_Suc_eq)

lemma rfind_loop_Some:
  "rfind_loop s c n = Some i \<Longrightarrow> i < n \<and> s ! i = c \<and> (\<forall>j. i < j \<and> j < n \<longrightarrow> s ! j \<noteq> c)"
proof (induction n)
  case 0
  then show ?case by simp
next
  case (Suc n)
  show ?case
  proof (cases "s ! n = c")
    case True
    with Suc.prems show ?thesis by auto
  next
    case False
    with Suc.prems have "rfind_loop s c n = Some i" by simp
    from Suc.IH[OF this] False show ?thesis by (auto simp: less_Suc_eq)
  qed
qed

lemma rfind_whole: "rfind s c (length s) = rfind_loop s c (length s)"
  by (cases s) (simp_all add: rfind_def)

lemma rfind_Some_lt:
  assumes "rfind s c pos = Some i"
  shows "i < length s \<and> s ! i = c \<and> i \<le> pos"
proof -
  from assms have ne: "s \<noteq> []" and
    "rfind_loop s c (Suc (min (length s - 1) pos)) = Some i"
    by (auto simp: rfind_def split: if_splits)
  from rfind_loop_Some[OF this(2)] have "i < Suc (min (length s - 1) pos)" "s ! i = c"
    by simp_all
  with ne show ?thesis by (cases s) auto
qed

lemma rfind_notin:
  assumes "c \<notin> set s"
  shows "rfind s c pos = None"
proof (cases "rfind s c pos")
  case None
  then show ?thesis .
next
  case (Some i)
  from rfind_Some_lt[OF Some] assms show ?thesis by (auto simp: in_set_conv_nth)
qed

lemma rfind_None_whole: "rfind s c (length s) = None \<longleftrightarrow> c \<notin> set s"
  by (auto simp: rfind_whole rfind_loop_None in_set_conv_nth)

lemma rfind_loop_unique:
  assumes "i < n" "s ! i = c" "\<forall>j. i < j \<and> j < n \<longrightarrow> s ! j \<noteq> c"
  shows "rfind_loop s c n = Some i"
proof (cases "rfind_loop s c n")
  case None
  with assms show ?thesis by (auto simp: rfind_loop_None)
next
  case (Some k)
  from rfind_loop_Some[OF Some] assms have "k = i"
    by (metis linorder_neqE_nat)
  with Some show ?thesis by simp
qed

lemma rfind_append_last:
  assumes "c \<notin> set b"
  shows "rfind (a @ c # b) c (length (a @ c # b)) = Some (length a)"
proof -
  have "\<forall>j. length a < j \<and> j < length (a @ c # b) \<longrightarrow> (a @ c # b) ! j \<noteq> c"
    using assms by (auto simp: nth_append nth_Cons split: nat.splits)
  then show ?thesis
    unfolding rfind_whole by (intro rfind_loop_unique) auto
qed


lemma split_at_slash:
  assumes "s = d @ ''/'' @ r" and "CHR ''/'' \<notin> set r"
  shows "rfind s (CHR ''/'') (length s) = Some (length d)"
  using rfind_append_last [OF assms(2), of d] assms(1) by simp

lemma isValid_nonempty: "isValid p \<Longrightarrow> path p \<noteq> []"
  by (auto simp: isValid_def)

lemma isDirectory_last: "isDirectory p \<longleftrightarrow> isValid p \<and> last (path p) = CHR ''/''"
  by (auto simp: isDirectory_def last_conv_nth dest: isValid_nonempty)

lemma isFile_last: "isFile p \<longleftrightarrow> isValid p \<and> last (path p) \<noteq> CHR ''/''"
  by (auto simp: isFile_def last_conv_nth dest: isValid_nonempty)

lemma isFile_not_isDirectory: "isFile p \<Longrightarrow> \<not> isDirectory p"
  by (simp add: isFile_def isDirectory_def)

lemma Path_update: "(p :: Path)\<lparr>path := s\<rparr> = \<lparr>path = s\<rparr>"
  by (cases p) simp

lemma Path_eqI: "path q = path p \<Longrightarrow> q = (p :: Path)"
  by simp

subsection \<open>Mode queries\<close>

text \<open>
  Claim C6. A valid path is non-empty and exactly one of \<open>isDirectory\<close> and \<open>isFile\<close>
  holds of it, \<open>isDirectory\<close> exactly when its last character is \<open>/\<close>; of an empty or
  invalid path neither holds.
\<close>

theorem isDirectory_isFile_exclusive:
  "(isValid p \<longrightarrow> path p \<noteq> [] \<and> (isDirectory p \<longleftrightarrow> \<not> isFile p)
       \<and> (isDirectory p \<longleftrightarrow> last (path p) = CHR ''/''))
   \<and> (path p = [] \<or> \<not> isValid p \<longrightarrow> \<not> isDirectory p \<and> \<not> isFile p)"
proof (intro conjI impI)
  assume v: "isValid p"
  then show "path p \<noteq> []" by (rule isValid_nonempty)
  from v show "isDirectory p \<longleftrightarrow> \<not> isFile p" by (simp add: isDirectory_def isFile_def)
  from v show "isDirectory p \<longleftrightarrow> last (path p) = CHR ''/''" by (simp add: isDirectory_last)
next
  assume "path p = [] \<or> \<not> isValid p"
  then have nv: "\<not> isValid p" by (auto dest: isValid_nonempty)
  then show "\<not> isDirectory p" by (simp add: isDirectory_def)
  from nv show "\<not> isFile p" by (simp add: isFile_def)
qed

theorem isDirectory_isFile_exclusive_witness:
  "isValid \<lparr>path = ''/a/''\<rparr> \<and> isDirectory \<lparr>path = ''/a/''\<rparr> \<and> \<not> isFile \<lparr>path = ''/a/''\<rparr>
   \<and> isValid \<lparr>path = ''/a/b''\<rparr> \<and> \<not> isDirectory \<lparr>path = ''/a/b''\<rparr> \<and> isFile \<lparr>path = ''/a/b''\<rparr>
   \<and> \<not> isValid \<lparr>path = ''foo.''\<rparr> \<and> \<not> isDirectory \<lparr>path = ''foo.''\<rparr> \<and> \<not> isFile \<lparr>path = ''foo.''\<rparr>
   \<and> \<not> isDirectory \<lparr>path = []\<rparr> \<and> \<not> isFile \<lparr>path = []\<rparr>"
proof -
  have v1: "isValid \<lparr>path = ''/a/''\<rparr>" by code_simp
  have v2: "isValid \<lparr>path = ''/a/b''\<rparr>" by code_simp
  have v3: "\<not> isValid \<lparr>path = ''foo.''\<rparr>" by code_simp
  show ?thesis
    using v1 v2 v3
      isDirectory_isFile_exclusive [of "\<lparr>path = ''/a/''\<rparr>"]
      isDirectory_isFile_exclusive [of "\<lparr>path = ''/a/b''\<rparr>"]
      isDirectory_isFile_exclusive [of "\<lparr>path = ''foo.''\<rparr>"]
      isDirectory_isFile_exclusive [of "\<lparr>path = []\<rparr>"]
    by auto
qed

subsection \<open>\<^verbatim>\<open>elideSuffix\<close>\<close>

text \<open>
  Claim C10. On a file-mode path that contains no \<open>/\<close> at all, \<open>elideSuffix\<close> returns
  false and leaves the path as it is, whether or not the path contains a dot.
\<close>

theorem elideSuffix_no_slash:
  assumes "isFile p" and "CHR ''/'' \<notin> set (path p)"
  shows "elideSuffix p = (False, p)"
proof -
  from assms(1) have "\<not> isDirectory p" by (rule isFile_not_isDirectory)
  moreover from assms(2) have "rfind (path p) (CHR ''/'') (length (path p)) = None"
    by (rule rfind_notin)
  ultimately show ?thesis by (simp add: elideSuffix_def)
qed

theorem elideSuffix_no_slash_witness:
  "isFile \<lparr>path = ''b.txt''\<rparr> \<and> CHR ''/'' \<notin> set ''b.txt''
   \<and> elideSuffix \<lparr>path = ''b.txt''\<rparr> = (False, \<lparr>path = ''b.txt''\<rparr>)"
proof -
  have f: "isFile \<lparr>path = ''b.txt''\<rparr>" by code_simp
  have n: "CHR ''/'' \<notin> set (path \<lparr>path = ''b.txt''\<rparr>)" by simp
  from elideSuffix_no_slash [OF f n] f show ?thesis by simp
qed

text \<open>
  Claim C8. On a file-mode path \<open>elideSuffix\<close> removes the text from the last dot after
  the last \<open>/\<close> to the end: when the path is \<open>d/b.s\<close> with no \<open>/\<close> in \<open>b\<close> and \<open>s\<close> and no
  dot in \<open>s\<close>, it returns true and leaves \<open>d/b\<close>; when no dot follows the last \<open>/\<close> (or
  there is no \<open>/\<close>), it returns false and changes nothing. On \<^verbatim>\<open>/a/b.c.txt\<close> it leaves
  \<^verbatim>\<open>/a/b.c\<close>.
\<close>

theorem elideSuffix_last_dot:
  "elideSuffix \<lparr>path = ''/a/b.c.txt''\<rparr> = (True, \<lparr>path = ''/a/b.c''\<rparr>)
   \<and> (isFile p \<longrightarrow>
        (\<forall>d b s. path p = d @ ''/'' @ b @ ''.'' @ s \<and> CHR ''/'' \<notin> set b
                  \<and> CHR ''/'' \<notin> set s \<and> CHR ''.'' \<notin> set s
            \<longrightarrow> elideSuffix p = (True, p\<lparr>path := d @ ''/'' @ b\<rparr>))
        \<and> ((\<forall>d r. path p = d @ ''/'' @ r \<and> CHR ''/'' \<notin> set r \<longrightarrow> CHR ''.'' \<notin> set r)
            \<longrightarrow> elideSuffix p = (False, p)))"
proof (intro conjI impI allI)
  show "elideSuffix \<lparr>path = ''/a/b.c.txt''\<rparr> = (True, \<lparr>path = ''/a/b.c''\<rparr>)"
    by code_simp
next
  fix d b s
  assume f: "isFile p"
    and h: "path p = d @ ''/'' @ b @ ''.'' @ s \<and> CHR ''/'' \<notin> set b
            \<and> CHR ''/'' \<notin> set s \<and> CHR ''.'' \<notin> set s"
  from f have nd: "\<not> isDirectory p" by (rule isFile_not_isDirectory)
  from h have e1: "path p = d @ CHR ''/'' # (b @ ''.'' @ s)" and
    e2: "path p = (d @ ''/'' @ b) @ CHR ''.'' # s" by simp_all
  from h have "CHR ''/'' \<notin> set (b @ ''.'' @ s)" by simp
  from rfind_append_last [OF this, of d] e1
  have sl: "rfind (path p) (CHR ''/'') (length (path p)) = Some (length d)" by simp
  from h have "CHR ''.'' \<notin> set s" by simp
  from rfind_append_last [OF this, of "d @ ''/'' @ b"] e2
  have dt: "rfind (path p) (CHR ''.'') (length (path p)) = Some (length (d @ ''/'' @ b))"
    by simp
  have "take (length (d @ ''/'' @ b)) (path p) = d @ ''/'' @ b"
    unfolding e2 by simp
  with nd sl dt show "elideSuffix p = (True, p\<lparr>path := d @ ''/'' @ b\<rparr>)"
    by (simp add: elideSuffix_def erase_def)
next
  assume f: "isFile p"
    and h: "\<forall>d r. path p = d @ ''/'' @ r \<and> CHR ''/'' \<notin> set r \<longrightarrow> CHR ''.'' \<notin> set r"
  from f have nd: "\<not> isDirectory p" by (rule isFile_not_isDirectory)
  show "elideSuffix p = (False, p)"
  proof (cases "rfind (path p) (CHR ''/'') (length (path p))")
    case None
    with nd show ?thesis by (simp add: elideSuffix_def)
  next
    case (Some i)
    note sl = rfind_loop_Some [OF Some [unfolded rfind_whole]]
    show ?thesis
    proof (cases "rfind (path p) (CHR ''.'') (length (path p))")
      case None
      with nd Some show ?thesis by (simp add: elideSuffix_def)
    next
      case (Some j)
      note dt = rfind_loop_Some [OF Some [unfolded rfind_whole]]
      have "\<not> i < j"
      proof
        assume ij: "i < j"
        let ?d = "take i (path p)" and ?r = "drop (Suc i) (path p)"
        from sl id_take_nth_drop [of i "path p"] have "path p = ?d @ ''/'' @ ?r"
          by simp
        moreover from sl have "CHR ''/'' \<notin> set ?r"
          by (auto simp: in_set_conv_nth)
        ultimately have "CHR ''.'' \<notin> set ?r" using h by blast
        moreover from dt ij have "?r ! (j - Suc i) = CHR ''.''" "j - Suc i < length ?r"
          by auto
        ultimately show False by (metis nth_mem)
      qed
      with nd \<open>rfind (path p) (CHR ''/'') (length (path p)) = Some i\<close> Some
      show ?thesis by (simp add: elideSuffix_def)
    qed
  qed
qed

theorem elideSuffix_last_dot_witness:
  "isFile \<lparr>path = ''/a/b.c.txt''\<rparr>
   \<and> elideSuffix \<lparr>path = ''/a/b.c.txt''\<rparr> = (True, \<lparr>path = ''/a/b.c''\<rparr>)
   \<and> isFile \<lparr>path = ''/a.d/b''\<rparr>
   \<and> elideSuffix \<lparr>path = ''/a.d/b''\<rparr> = (False, \<lparr>path = ''/a.d/b''\<rparr>)"
proof -
  let ?p = "\<lparr>path = ''/a/b.c.txt''\<rparr>" and ?q = "\<lparr>path = ''/a.d/b''\<rparr>"
  have f1: "isFile ?p" by code_simp
  have f2: "isFile ?q" by code_simp
  have d1: "path ?p = ''/a'' @ ''/'' @ ''b.c'' @ ''.'' @ ''txt'' \<and> CHR ''/'' \<notin> set ''b.c''
            \<and> CHR ''/'' \<notin> set ''txt'' \<and> CHR ''.'' \<notin> set ''txt''" by simp
  have d2: "\<forall>d r. path ?q = d @ ''/'' @ r \<and> CHR ''/'' \<notin> set r \<longrightarrow> CHR ''.'' \<notin> set r"
  proof (intro allI impI)
    fix d r
    assume h: "path ?q = d @ ''/'' @ r \<and> CHR ''/'' \<notin> set r"
    then have "rfind (path ?q) (CHR ''/'') (length (path ?q)) = Some (length d)"
      by (intro split_at_slash) auto
    moreover have "rfind (path ?q) (CHR ''/'') (length (path ?q)) = Some 4" by code_simp
    ultimately have "length d = 4" by simp
    with h have "r = drop 5 (path ?q)"
      by (metis append_eq_conv_conj length_append_singleton append.assoc append_Cons append_Nil eval_nat_numeral(3) numeral_Bit0 add_2_eq_Suc)
    then show "CHR ''.'' \<notin> set r" by simp
  qed
  from elideSuffix_last_dot [of ?p] f1 d1 have r1: "elideSuffix ?p = (True, ?p\<lparr>path := ''/a'' @ ''/'' @ ''b.c''\<rparr>)"
    by blast
  from elideSuffix_last_dot [of ?q] f2 d2 have r2: "elideSuffix ?q = (False, ?q)"
    by blast
  from f1 f2 r1 r2 show ?thesis by simp
qed

section \<open>Validity of the stored string\<close>

text \<open>
  The three \<open>elide\<close> operations take no snapshot and do not call \<open>isValid\<close>: they cut
  the string at a position found by \<open>rfind\<close> and return true.
\<close>

lemma elideDirectory_shrinks:
  "case elideDirectory p of (ok, p') \<Rightarrow>
     if ok then \<exists>k<length (path p). p' = p\<lparr>path := take k (path p)\<rparr> else p' = p"
  by (auto simp: elideDirectory_def erase_def Let_def split: option.splits dest: rfind_Some_lt)

lemma elideFile_shrinks:
  "case elideFile p of (ok, p') \<Rightarrow>
     if ok then \<exists>k\<le>length (path p). p' = p\<lparr>path := take k (path p)\<rparr> else p' = p"
proof (cases "rfind (path p) (CHR ''/'') (length (path p))")
  case None
  then show ?thesis by (simp add: elideFile_def)
next
  case (Some i)
  from rfind_Some_lt [OF Some] have "Suc i \<le> length (path p)" by simp
  with Some show ?thesis by (auto simp: elideFile_def erase_def)
qed

lemma elideSuffix_shrinks:
  "case elideSuffix p of (ok, p') \<Rightarrow>
     if ok then \<exists>k<length (path p). p' = p\<lparr>path := take k (path p)\<rparr> else p' = p"
  by (auto simp: elideSuffix_def erase_def Let_def split: option.splits dest: rfind_Some_lt)

text \<open>
  Claim C1, as stated, fails: an \<open>elide\<close> operation can commit a non-empty string that
  \<open>isValid\<close> rejects. \<open>elideSuffix\<close> turns the valid \<^verbatim>\<open>/a/b .txt\<close> into \<^verbatim>\<open>/a/b \<close> (trailing
  space), \<open>elideFile\<close> turns the valid \<^verbatim>\<open>/a./b\<close> into \<^verbatim>\<open>/a./\<close>, and \<open>elideDirectory\<close> turns
  the valid \<^verbatim>\<open>/a./b/\<close> into \<^verbatim>\<open>/a.\<close>; each returns true.
\<close>

theorem elide_leaves_invalid_path:
  "isValid \<lparr>path = ''/a/b .txt''\<rparr>
   \<and> elideSuffix \<lparr>path = ''/a/b .txt''\<rparr> = (True, \<lparr>path = ''/a/b ''\<rparr>)
   \<and> \<not> isValid \<lparr>path = ''/a/b ''\<rparr>
   \<and> isValid \<lparr>path = ''/a./b''\<rparr>
   \<and> elideFile \<lparr>path = ''/a./b''\<rparr> = (True, \<lparr>path = ''/a./''\<rparr>)
   \<and> \<not> isValid \<lparr>path = ''/a./''\<rparr>
   \<and> isValid \<lparr>path = ''/a./b/''\<rparr>
   \<and> elideDirectory \<lparr>path = ''/a./b/''\<rparr> = (True, \<lparr>path = ''/a.''\<rparr>)
   \<and> \<not> isValid \<lparr>path = ''/a.''\<rparr>"
  by code_simp

text \<open>
  Claim C1, amended. Each of \<open>setDirectory\<close>, \<open>setFile\<close>, \<open>appendDirectory\<close>,
  \<open>appendFile\<close> and \<open>appendSuffix\<close> either returns true and leaves a string that satisfies
  \<open>isValid\<close>, or returns false and leaves the Path as it was. Each of \<open>elideDirectory\<close>,
  \<open>elideFile\<close> and \<open>elideSuffix\<close> either returns false and leaves the Path as it was, or
  returns true and leaves a prefix of the previous string, which is not validated.
\<close>

theorem mutators_commit_or_roll_back:
  "(case setDirectory p s of (ok, p') \<Rightarrow> if ok then isValid p' else p' = p)
   \<and> (case setFile p s of (ok, p') \<Rightarrow> if ok then isValid p' else p' = p)
   \<and> (case appendDirectory p s of (ok, p') \<Rightarrow> if ok then isValid p' else p' = p)
   \<and> (case appendFile p s of (ok, p') \<Rightarrow> if ok then isValid p' else p' = p)
   \<and> (case appendSuffix p s of (ok, p') \<Rightarrow> if ok then isValid p' else p' = p)
   \<and> (case elideDirectory p of (ok, p') \<Rightarrow>
         if ok then \<exists>k<length (path p). p' = p\<lparr>path := take k (path p)\<rparr> else p' = p)
   \<and> (case elideFile p of (ok, p') \<Rightarrow>
         if ok then \<exists>k\<le>length (path p). p' = p\<lparr>path := take k (path p)\<rparr> else p' = p)
   \<and> (case elideSuffix p of (ok, p') \<Rightarrow>
         if ok then \<exists>k<length (path p). p' = p\<lparr>path := take k (path p)\<rparr> else p' = p)"
proof (intro conjI)
  show "case setDirectory p s of (ok, p') \<Rightarrow> if ok then isValid p' else p' = p"
    by (simp add: setDirectory_def Let_def)
  show "case setFile p s of (ok, p') \<Rightarrow> if ok then isValid p' else p' = p"
    by (simp add: setFile_def Let_def)
  show "case appendDirectory p s of (ok, p') \<Rightarrow> if ok then isValid p' else p' = p"
    by (simp add: appendDirectory_def Let_def)
  show "case appendFile p s of (ok, p') \<Rightarrow> if ok then isValid p' else p' = p"
    by (simp add: appendFile_def Let_def)
  show "case appendSuffix p s of (ok, p') \<Rightarrow> if ok then isValid p' else p' = p"
    by (simp add: appendSuffix_def Let_def)
qed (rule elideDirectory_shrinks elideFile_shrinks elideSuffix_shrinks)+

theorem mutators_commit_or_roll_back_witness:
  "isValid (snd (appendSuffix \<lparr>path = ''/a/b''\<rparr> ''txt''))
   \<and> snd (appendSuffix \<lparr>path = ''/a/b''\<rparr> '' '') = \<lparr>path = ''/a/b''\<rparr>
   \<and> (\<exists>k<length ''/a/b/''. snd (elideDirectory \<lparr>path = ''/a/b/''\<rparr>) = \<lparr>path = take k ''/a/b/''\<rparr>)"
proof -
  let ?f = "\<lparr>path = ''/a/b''\<rparr>" and ?d = "\<lparr>path = ''/a/b/''\<rparr>"
  have a: "fst (appendSuffix ?f ''txt'')" by code_simp
  have b: "\<not> fst (appendSuffix ?f '' '')" by code_simp
  have c: "fst (elideDirectory ?d)" by code_simp
  have "case appendSuffix ?f ''txt'' of (ok, p') \<Rightarrow> if ok then isValid p' else p' = ?f"
    using mutators_commit_or_roll_back [of ?f "''txt''"] by - (elim conjE, assumption)
  with a have 1: "isValid (snd (appendSuffix ?f ''txt''))"
    by (simp add: case_prod_beta)
  have "case appendSuffix ?f '' '' of (ok, p') \<Rightarrow> if ok then isValid p' else p' = ?f"
    using mutators_commit_or_roll_back [of ?f "'' ''"] by - (elim conjE, assumption)
  with b have 2: "snd (appendSuffix ?f '' '') = ?f"
    by (simp add: case_prod_beta)
  have "case elideDirectory ?d of (ok, p') \<Rightarrow>
          if ok then \<exists>k<length (path ?d). p' = ?d\<lparr>path := take k (path ?d)\<rparr> else p' = ?d"
    using mutators_commit_or_roll_back [of ?d "[]"] by - (elim conjE, assumption)
  with c have 3: "\<exists>k<length ''/a/b/''. snd (elideDirectory ?d) = \<lparr>path = take k ''/a/b/''\<rparr>"
    by (simp add: case_prod_beta)
  from 1 2 3 show ?thesis by blast
qed

section \<open>Construction from a string\<close>

text \<open>
  Claim C5, as stated, fails for the empty string: the constructor returns before it calls
  \<open>isValid\<close>, so the empty string, which \<open>isValid\<close> rejects, is stored and nothing is
  thrown.
\<close>

theorem Path_ctor_empty_not_validated:
  "\<not> isValid \<lparr>path = FlipBackSlashes ''''\<rparr> \<and> Path_ctor '''' = (\<lparr>path = ''''\<rparr>, None)"
  by code_simp

text \<open>
  Claim C5, amended. The empty string constructs the empty Path and nothing is thrown. A
  non-empty string is validated at once, after its backslashes are flipped: when the
  flipped string is valid it is stored and nothing is thrown; otherwise the stored string
  is cleared and the message \<open>s\<close> followed by \<^verbatim>\<open>: path is not valid\<close> is thrown.
\<close>

theorem Path_ctor_validates_nonempty:
  "Path_ctor [] = (Path_empty, None)
   \<and> (s \<noteq> [] \<longrightarrow>
        Path_ctor s =
          (if isValid \<lparr>path = FlipBackSlashes s\<rparr> then (\<lparr>path = FlipBackSlashes s\<rparr>, None)
           else (Path_empty, Some (s @ '': path is not valid''))))"
  by (simp add: Path_ctor_def Path_empty_def FlipBackSlashes_def)

theorem Path_ctor_validates_nonempty_witness:
  "Path_ctor ''a<'' = (Path_empty, Some ''a<: path is not valid'')
   \<and> Path_ctor [CHR ''C'', CHR '':'', CHR 0x5C, CHR ''x''] = (\<lparr>path = ''C:/x''\<rparr>, None)"
proof -
  have v1: "\<not> isValid \<lparr>path = FlipBackSlashes ''a<''\<rparr>" by code_simp
  have v2: "isValid \<lparr>path = FlipBackSlashes [CHR ''C'', CHR '':'', CHR 0x5C, CHR ''x'']\<rparr>"
    by code_simp
  have f2: "FlipBackSlashes [CHR ''C'', CHR '':'', CHR 0x5C, CHR ''x''] = ''C:/x''"
    by code_simp
  from v1 v2 f2 Path_ctor_validates_nonempty [of "''a<''"]
    Path_ctor_validates_nonempty [of "[CHR ''C'', CHR '':'', CHR 0x5C, CHR ''x'']"]
  show ?thesis by simp
qed

section \<open>\<^verbatim>\<open>setDirectory\<close>\<close>

text \<open>
  Claim C3, as stated, fails: \<open>setDirectory\<close> does not append a \<open>/\<close> to every argument
  other than \<^verbatim>\<open>/\<close>. The guard \<^verbatim>\<open>a_path[last] != '/'\<close> leaves an argument that already ends
  in \<open>/\<close> as it is (\<^verbatim>\<open>/a/\<close> is stored as \<^verbatim>\<open>/a/\<close>), and the guard \<^verbatim>\<open>last != 0\<close> leaves every
  argument of one character as it is (\<^verbatim>\<open>a\<close> is stored as \<^verbatim>\<open>a\<close>, a file-mode path).
\<close>

theorem setDirectory_appends_no_separator:
  "setDirectory Path_empty ''/a/'' = (True, \<lparr>path = ''/a/''\<rparr>)
   \<and> setDirectory Path_empty ''a'' = (True, \<lparr>path = ''a''\<rparr>)"
  by code_simp

text \<open>
  Claim C3, amended. \<open>setDirectory\<close> rejects the empty argument and leaves the Path as it
  was. For an argument \<open>s\<close> of two or more characters (or exactly \<^verbatim>\<open>/\<close>) the candidate is \<open>s\<close>
  with its backslashes flipped, followed by a \<open>/\<close> unless \<open>s\<close> as supplied already ends in
  \<open>/\<close>; when the candidate is valid it is stored and the result is true, otherwise the
  previous Path is restored and the result is false. The result is always a value: the
  function has no \<^verbatim>\<open>throw\<close>. (What it does with another argument of one character is
  left open.)
\<close>

theorem setDirectory_normalizes:
  "setDirectory p [] = (False, p)
   \<and> (2 \<le> length s \<or> s = ''/'' \<longrightarrow>
        setDirectory p s =
          (let candidate = FlipBackSlashes s @ (if last s = CHR ''/'' then [] else ''/'')
           in if isValid \<lparr>path = candidate\<rparr> then (True, \<lparr>path = candidate\<rparr>)
              else (False, p)))"
proof (intro conjI impI)
  show "setDirectory p [] = (False, p)" by (simp add: setDirectory_def)
next
  assume "2 \<le> length s \<or> s = ''/''"
  then show "setDirectory p s =
          (let candidate = FlipBackSlashes s @ (if last s = CHR ''/'' then [] else ''/'')
           in if isValid \<lparr>path = candidate\<rparr> then (True, \<lparr>path = candidate\<rparr>)
              else (False, p))"
  proof
    assume "s = ''/''"
    then show ?thesis by (simp add: setDirectory_def Let_def FlipBackSlashes_def Path_update)
  next
    assume len: "2 \<le> length s"
    then have ne: "s \<noteq> []" and l: "length s - 1 \<noteq> 0" by auto
    from ne have "last s = s ! (length s - 1)" by (rule last_conv_nth)
    with ne l show ?thesis by (simp add: setDirectory_def Let_def Path_update)
  qed
qed

theorem setDirectory_normalizes_witness:
  "setDirectory \<lparr>path = ''/old/''\<rparr> [CHR ''C'', CHR '':'', CHR 0x5C, CHR ''x'']
     = (True, \<lparr>path = ''C:/x/''\<rparr>)
   \<and> setDirectory \<lparr>path = ''/old/''\<rparr> ''/x/'' = (True, \<lparr>path = ''/x/''\<rparr>)
   \<and> setDirectory \<lparr>path = ''/old/''\<rparr> ''/'' = (True, \<lparr>path = ''/''\<rparr>)
   \<and> setDirectory \<lparr>path = ''/old/''\<rparr> ''a<'' = (False, \<lparr>path = ''/old/''\<rparr>)"
proof -
  let ?p = "\<lparr>path = ''/old/''\<rparr>" and ?w = "[CHR ''C'', CHR '':'', CHR 0x5C, CHR ''x'']"
  have f: "FlipBackSlashes ?w = ''C:/x''" by code_simp
  have v1: "isValid \<lparr>path = ''C:/x/''\<rparr>" by code_simp
  have v2: "isValid \<lparr>path = ''/x/''\<rparr>" by code_simp
  have v3: "isValid \<lparr>path = ''/''\<rparr>" by code_simp
  have v4: "\<not> isValid \<lparr>path = ''a</''\<rparr>" by code_simp
  have 1: "setDirectory ?p ?w = (True, \<lparr>path = ''C:/x/''\<rparr>)"
    using setDirectory_normalizes [of ?p ?w] f v1 by simp
  have 2: "setDirectory ?p ''/x/'' = (True, \<lparr>path = ''/x/''\<rparr>)"
    using setDirectory_normalizes [of ?p "''/x/''"] v2 by (simp add: FlipBackSlashes_def)
  have 3: "setDirectory ?p ''/'' = (True, \<lparr>path = ''/''\<rparr>)"
    using setDirectory_normalizes [of ?p "''/''"] v3 by (simp add: FlipBackSlashes_def)
  have 4: "setDirectory ?p ''a<'' = (False, ?p)"
    using setDirectory_normalizes [of ?p "''a<''"] v4 by (simp add: FlipBackSlashes_def)
  from 1 2 3 4 show ?thesis by simp
qed

section \<open>\<^verbatim>\<open>isBytecodeFile\<close>\<close>

text \<open>
  Claim C9, as stated, fails: the function tests \<^verbatim>\<open>f.bad()\<close> only. When the file cannot be
  opened (or is empty) the read stores nothing and fails with \<^verbatim>\<open>failbit\<close>, \<^verbatim>\<open>badbit\<close> is not
  set, and the function returns false without an error: \<^verbatim>\<open>buffer[0]\<close>, set to 0 before the
  read, makes both comparisons fail.
\<close>

theorem isBytecodeFile_silent_on_failed_read:
  "read_failed \<lparr>badbit = False, extracted = []\<rparr> 4
   \<and> isBytecodeFile (\<lambda>s n. \<lparr>badbit = False, extracted = []\<rparr>)
        (CHR ''l'') (CHR ''v'') (CHR ''m'') \<lparr>path = ''/no/such/file''\<rparr> = Inr False"
  by code_simp

text \<open>
  Claim C9, amended. The function throws the error \<^verbatim>\<open>can't read file signature\<close> when the
  stream reports \<^verbatim>\<open>badbit\<close> after the read, and only then: whatever the read stored, no
  error is reported without \<^verbatim>\<open>badbit\<close>. When \<^verbatim>\<open>badbit\<close> is not set and the read stored four
  characters, the result is true exactly when they are \<^verbatim>\<open>llvc\<close> or \<^verbatim>\<open>llvm\<close>. When it is not
  set and the read stored nothing, the result is false.
\<close>

theorem isBytecodeFile_magic:
  "(badbit (io (path p) 4) \<longrightarrow>
      isBytecodeFile io g1 g2 g3 p
        = Inl (ThrowErrno (''can'' @ [CHR 0x27] @ ''t read file signature'')))
   \<and> (\<forall>e. isBytecodeFile io g1 g2 g3 p = Inl e \<longrightarrow> badbit (io (path p) 4))
   \<and> (\<not> badbit (io (path p) 4) \<and> length (extracted (io (path p) 4)) = 4 \<longrightarrow>
        isBytecodeFile io g1 g2 g3 p
          = Inr (extracted (io (path p) 4) = ''llvc'' \<or> extracted (io (path p) 4) = ''llvm''))
   \<and> (\<not> badbit (io (path p) 4) \<and> extracted (io (path p) 4) = [] \<longrightarrow>
        isBytecodeFile io g1 g2 g3 p = Inr False)"
proof (intro conjI impI allI)
  assume "badbit (io (path p) 4)"
  then show "isBytecodeFile io g1 g2 g3 p
        = Inl (ThrowErrno (''can'' @ [CHR 0x27] @ ''t read file signature''))"
    by (simp add: isBytecodeFile_def Let_def)
next
  fix e
  assume "isBytecodeFile io g1 g2 g3 p = Inl e"
  then show "badbit (io (path p) 4)"
    by (auto simp: isBytecodeFile_def Let_def split: if_splits)
next
  assume "\<not> badbit (io (path p) 4) \<and> length (extracted (io (path p) 4)) = 4"
  then show "isBytecodeFile io g1 g2 g3 p
          = Inr (extracted (io (path p) 4) = ''llvc'' \<or> extracted (io (path p) 4) = ''llvm'')"
    by (simp add: isBytecodeFile_def Let_def)
next
  assume "\<not> badbit (io (path p) 4) \<and> extracted (io (path p) 4) = []"
  then show "isBytecodeFile io g1 g2 g3 p = Inr False"
    by (simp add: isBytecodeFile_def Let_def)
qed

theorem isBytecodeFile_magic_witness:
  "isBytecodeFile (\<lambda>s n. \<lparr>badbit = True, extracted = []\<rparr>) (CHR ''x'') (CHR ''y'') (CHR ''z'')
       \<lparr>path = ''/f''\<rparr> = Inl (ThrowErrno (''can'' @ [CHR 0x27] @ ''t read file signature''))
   \<and> isBytecodeFile (\<lambda>s n. \<lparr>badbit = False, extracted = ''llvm''\<rparr>) (CHR ''x'') (CHR ''y'')
       (CHR ''z'') \<lparr>path = ''/f''\<rparr> = Inr True
   \<and> isBytecodeFile (\<lambda>s n. \<lparr>badbit = False, extracted = ''llvc''\<rparr>) (CHR ''x'') (CHR ''y'')
       (CHR ''z'') \<lparr>path = ''/f''\<rparr> = Inr True
   \<and> isBytecodeFile (\<lambda>s n. \<lparr>badbit = False, extracted = ''llvx''\<rparr>) (CHR ''x'') (CHR ''y'')
       (CHR ''z'') \<lparr>path = ''/f''\<rparr> = Inr False
   \<and> isBytecodeFile (\<lambda>s n. \<lparr>badbit = False, extracted = []\<rparr>) (CHR ''x'') (CHR ''y'')
       (CHR ''z'') \<lparr>path = ''/f''\<rparr> = Inr False
   \<and> (\<forall>e. isBytecodeFile (\<lambda>s n. \<lparr>badbit = False, extracted = ''ab''\<rparr>) (CHR ''x'') (CHR ''y'')
       (CHR ''z'') \<lparr>path = ''/f''\<rparr> \<noteq> Inl e)"
proof -
  let ?p = "\<lparr>path = ''/f''\<rparr>"
  have 1: "isBytecodeFile (\<lambda>s n. \<lparr>badbit = True, extracted = []\<rparr>) (CHR ''x'') (CHR ''y'')
       (CHR ''z'') ?p = Inl (ThrowErrno (''can'' @ [CHR 0x27] @ ''t read file signature''))"
    using isBytecodeFile_magic [of "\<lambda>s n. \<lparr>badbit = True, extracted = []\<rparr>" ?p
       "CHR ''x''" "CHR ''y''" "CHR ''z''"] by simp
  have 2: "isBytecodeFile (\<lambda>s n. \<lparr>badbit = False, extracted = ''llvm''\<rparr>) (CHR ''x'') (CHR ''y'')
       (CHR ''z'') ?p = Inr True"
    using isBytecodeFile_magic [of "\<lambda>s n. \<lparr>badbit = False, extracted = ''llvm''\<rparr>" ?p
       "CHR ''x''" "CHR ''y''" "CHR ''z''"] by simp
  have 3: "isBytecodeFile (\<lambda>s n. \<lparr>badbit = False, extracted = ''llvc''\<rparr>) (CHR ''x'') (CHR ''y'')
       (CHR ''z'') ?p = Inr True"
    using isBytecodeFile_magic [of "\<lambda>s n. \<lparr>badbit = False, extracted = ''llvc''\<rparr>" ?p
       "CHR ''x''" "CHR ''y''" "CHR ''z''"] by simp
  have 4: "isBytecodeFile (\<lambda>s n. \<lparr>badbit = False, extracted = ''llvx''\<rparr>) (CHR ''x'') (CHR ''y'')
       (CHR ''z'') ?p = Inr False"
    using isBytecodeFile_magic [of "\<lambda>s n. \<lparr>badbit = False, extracted = ''llvx''\<rparr>" ?p
       "CHR ''x''" "CHR ''y''" "CHR ''z''"] by simp
  have 5: "isBytecodeFile (\<lambda>s n. \<lparr>badbit = False, extracted = []\<rparr>) (CHR ''x'') (CHR ''y'')
       (CHR ''z'') ?p = Inr False"
    using isBytecodeFile_magic [of "\<lambda>s n. \<lparr>badbit = False, extracted = []\<rparr>" ?p
       "CHR ''x''" "CHR ''y''" "CHR ''z''"] by simp
  have 6: "\<forall>e. isBytecodeFile (\<lambda>s n. \<lparr>badbit = False, extracted = ''ab''\<rparr>) (CHR ''x'') (CHR ''y'')
       (CHR ''z'') ?p \<noteq> Inl e"
    using isBytecodeFile_magic [of "\<lambda>s n. \<lparr>badbit = False, extracted = ''ab''\<rparr>" ?p
       "CHR ''x''" "CHR ''y''" "CHR ''z''"] by auto
  from 1 2 3 4 5 6 show ?thesis by (intro conjI)
qed

section \<open>Appending and eliding a file name and a suffix\<close>

text \<open>
  While the string is a directory part \<open>d/\<close> followed by text without a \<open>/\<close>, each of
  \<open>appendFile\<close>, \<open>appendSuffix\<close> and \<open>elideSuffix\<close> keeps it so, and \<open>elideFile\<close> cuts it
  back to \<open>d/\<close>.
\<close>

lemma isDirectory_split:
  assumes "isDirectory p"
  shows "path p = butlast (path p) @ ''/''"
proof -
  from assms have "path p \<noteq> []" "last (path p) = CHR ''/''"
    by (auto simp: isDirectory_last dest: isValid_nonempty)
  then show ?thesis by (metis append_butlast_last_id)
qed

lemma appendFile_path:
  "path (snd (appendFile q n)) = path q \<or> path (snd (appendFile q n)) = path q @ n"
  by (simp add: appendFile_def Let_def)

lemma appendSuffix_path:
  "path (snd (appendSuffix q x)) = path q \<or> path (snd (appendSuffix q x)) = path q @ ''.'' @ x"
  by (simp add: appendSuffix_def Let_def)

lemma elideSuffix_keeps_directory:
  assumes "path q = d @ ''/'' @ m" and "CHR ''/'' \<notin> set m"
  shows "\<exists>m'. path (snd (elideSuffix q)) = d @ ''/'' @ m' \<and> CHR ''/'' \<notin> set m'"
proof (cases "fst (elideSuffix q)")
  case False
  then have "snd (elideSuffix q) = q"
    by (auto simp: elideSuffix_def Let_def split: option.splits if_splits)
  with assms show ?thesis by auto
next
  case True
  from assms have sl: "rfind (path q) (CHR ''/'') (length (path q)) = Some (length d)"
    by (rule split_at_slash)
  from True sl obtain j where j: "rfind (path q) (CHR ''.'') (length (path q)) = Some j"
    and gt: "length d < j" and res: "path (snd (elideSuffix q)) = take j (path q)"
    by (auto simp: elideSuffix_def Let_def erase_def split: option.splits if_splits)
  from gt obtain k where k: "j = Suc (length d) + k"
    by (metis less_iff_Suc_add add_Suc)
  with assms(1) have "take j (path q) = d @ ''/'' @ take (j - Suc (length d)) m"
    by simp
  moreover from assms(2) have "CHR ''/'' \<notin> set (take (j - Suc (length d)) m)"
    by (auto dest: in_set_takeD)
  ultimately show ?thesis using res by auto
qed

lemma elideFile_restores_directory:
  assumes "path q = d @ ''/'' @ m" and "CHR ''/'' \<notin> set m"
  shows "path (snd (elideFile q)) = d @ ''/''"
proof (cases "isDirectory q")
  case True
  then have l: "last (path q) = CHR ''/''" by (simp add: isDirectory_last)
  have "m = []"
  proof (rule ccontr)
    assume "m \<noteq> []"
    with assms(1) have "last (path q) = last m" by simp
    with \<open>m \<noteq> []\<close> l assms(2) show False by (metis last_in_set)
  qed
  with True assms(1) show ?thesis by (simp add: elideFile_def)
next
  case False
  from assms have sl: "rfind (path q) (CHR ''/'') (length (path q)) = Some (length d)"
    by (rule split_at_slash)
  with False assms(1) show ?thesis by (simp add: elideFile_def erase_def)
qed

text \<open>
  The names must not contain a separator, which no operation checks: on the directory
  \<^verbatim>\<open>/\<close> with \<open>n\<close> = \<^verbatim>\<open>a/b\<close> and \<open>x\<close> = \<^verbatim>\<open>c\<close> the four operations end in \<^verbatim>\<open>/a/\<close>, not in \<^verbatim>\<open>/\<close>.
\<close>

lemma append_elide_separator_in_name:
  "isDirectory \<lparr>path = ''/''\<rparr>
   \<and> isFile (snd (appendFile \<lparr>path = ''/''\<rparr> ''a/b''))
   \<and> CHR ''.'' \<notin> set (path (snd (appendFile \<lparr>path = ''/''\<rparr> ''a/b'')))
   \<and> snd (elideFile (snd (elideSuffix (snd (appendSuffix
            (snd (appendFile \<lparr>path = ''/''\<rparr> ''a/b'')) ''c''))))) = \<lparr>path = ''/a/''\<rparr>"
  by code_simp

text \<open>
  The four operations in a row: for a directory-mode \<open>p\<close> and \<open>n\<close>, \<open>x\<close> without a
  \<open>/\<close>, the Path after \<open>appendFile n\<close>, \<open>appendSuffix x\<close>, \<open>elideSuffix\<close>, \<open>elideFile\<close> is
  \<open>p\<close> again, whether or not each step succeeds.
\<close>

lemma append_elide_composition:
  assumes "isDirectory p" and "CHR ''/'' \<notin> set n" and "CHR ''/'' \<notin> set x"
  shows "snd (elideFile (snd (elideSuffix (snd (appendSuffix (snd (appendFile p n)) x))))) = p"
proof -
  let ?d = "butlast (path p)"
  let ?p1 = "snd (appendFile p n)"
  let ?p2 = "snd (appendSuffix ?p1 x)"
  let ?p3 = "snd (elideSuffix ?p2)"
  from assms(1) have p: "path p = ?d @ ''/''" by (rule isDirectory_split)
  from appendFile_path [of p n] p assms(2)
  obtain m1 where m1: "path ?p1 = ?d @ ''/'' @ m1" "CHR ''/'' \<notin> set m1"
    by (metis append.assoc append_Nil2 empty_iff list.set(1))
  from appendSuffix_path [of ?p1 x] m1 assms(3)
  obtain m2 where m2: "path ?p2 = ?d @ ''/'' @ m2" "CHR ''/'' \<notin> set m2"
  proof (elim disjE)
    assume "path ?p2 = path ?p1"
    with m1 that show thesis by simp
  next
    assume "path ?p2 = path ?p1 @ ''.'' @ x"
    with m1 assms(3) that [of "m1 @ ''.'' @ x"] show thesis by simp
  qed
  from elideSuffix_keeps_directory [OF m2]
  obtain m3 where m3: "path ?p3 = ?d @ ''/'' @ m3" "CHR ''/'' \<notin> set m3" by blast
  from elideFile_restores_directory [OF m3] p have "path (snd (elideFile ?p3)) = path p"
    by simp
  then show ?thesis by (rule Path_eqI)
qed

lemma isValid_last_not_dot: "isValid p \<Longrightarrow> last (path p) \<noteq> CHR ''.''"
  by (auto simp: isValid_def Let_def last_conv_nth split: if_splits)

lemma appendFile_result:
  assumes "isDirectory p"
  shows "appendFile p n =
     (if isValid \<lparr>path = path p @ n\<rparr> then (True, \<lparr>path = path p @ n\<rparr>) else (False, p))"
  using assms by (simp add: appendFile_def Let_def Path_update)

lemma appendSuffix_result:
  "appendSuffix q x =
     (if \<not> isDirectory q \<and> isValid \<lparr>path = path q @ ''.'' @ x\<rparr>
      then (True, \<lparr>path = path q @ ''.'' @ x\<rparr>) else (False, q))"
  by (simp add: appendSuffix_def Let_def Path_update)

lemma appendFile_elideFile:
  assumes "isDirectory p" and "CHR ''/'' \<notin> set n" and "fst (appendFile p n)" and "n \<noteq> []"
  shows "elideFile (snd (appendFile p n)) = (True, p)"
proof -
  let ?q = "snd (appendFile p n)"
  let ?d = "butlast (path p)"
  from assms(1) have p: "path p = ?d @ ''/''" by (rule isDirectory_split)
  from assms(1,3) have v: "isValid ?q" and q: "path ?q = path p @ n"
    by (auto simp: appendFile_result split: if_splits)
  from q assms(4) have "last (path ?q) = last n" by simp
  with assms(2,4) have "last (path ?q) \<noteq> CHR ''/''" by (metis last_in_set)
  then have nd: "\<not> isDirectory ?q" by (simp add: isDirectory_last)
  from q p have q': "path ?q = ?d @ ''/'' @ n" by simp
  from q' assms(2) have sl: "rfind (path ?q) (CHR ''/'') (length (path ?q)) = Some (length ?d)"
    by (rule split_at_slash)
  have "take (Suc (length ?d)) (path ?q) = path p" using q' p by simp
  with nd sl show ?thesis by (simp add: elideFile_def erase_def Path_update)
qed

lemma appendSuffix_elideSuffix:
  assumes "path q = d @ ''/'' @ m" and "CHR ''/'' \<notin> set m"
    and "CHR ''/'' \<notin> set x" and "CHR ''.'' \<notin> set x" and "fst (appendSuffix q x)"
  shows "elideSuffix (snd (appendSuffix q x)) = (True, q)"
proof -
  let ?r = "snd (appendSuffix q x)"
  from assms(5) have v: "isValid ?r" and r: "path ?r = path q @ ''.'' @ x"
    by (auto simp: appendSuffix_result split: if_splits)
  have xne: "x \<noteq> []"
  proof
    assume "x = []"
    with r have "last (path ?r) = CHR ''.''" by simp
    with isValid_last_not_dot [OF v] show False by simp
  qed
  with r have "last (path ?r) = last x" by simp
  with assms(3) xne have "last (path ?r) \<noteq> CHR ''/''" by (metis last_in_set)
  then have nd: "\<not> isDirectory ?r" by (simp add: isDirectory_last)
  from r assms(1) have r': "path ?r = d @ ''/'' @ (m @ ''.'' @ x)" by simp
  moreover from assms(2,3) have "CHR ''/'' \<notin> set (m @ ''.'' @ x)" by simp
  ultimately have sl: "rfind (path ?r) (CHR ''/'') (length (path ?r)) = Some (length d)"
    by (rule split_at_slash)
  from r have "path ?r = path q @ CHR ''.'' # x" by simp
  with rfind_append_last [OF assms(4), of "path q"]
  have dt: "rfind (path ?r) (CHR ''.'') (length (path ?r)) = Some (length (path q))" by simp
  from assms(1) have lt: "length d < length (path q)" by simp
  have "take (length (path q)) (path ?r) = path q" using r by simp
  with nd sl dt lt show ?thesis by (simp add: elideSuffix_def erase_def Path_update)
qed

text \<open>
  Claim C7. Let \<open>p\<close> be a directory-mode path and \<open>n\<close>, \<open>x\<close> names, that is, strings
  without a \<open>/\<close>. Then the Path after \<open>appendFile n\<close>, \<open>appendSuffix x\<close>, \<open>elideSuffix\<close>,
  \<open>elideFile\<close>, in this order, equals \<open>p\<close>. The two pairs are inverse to each other:
  \<open>appendFile n\<close> stores \<open>p\<close> followed by \<open>n\<close> when that is valid (and changes nothing
  otherwise), \<open>elideFile\<close> after it gives \<open>p\<close> back, returning true when the append
  succeeded and \<open>n\<close> is not empty, and appending \<open>n\<close> again gives the file path back;
  \<open>appendSuffix x\<close> stores the file path followed by a dot and \<open>x\<close> when that is valid (and
  changes nothing otherwise), and when it succeeded and \<open>x\<close> has no dot, \<open>elideSuffix\<close>
  returns true and gives the file path back, and appending \<open>x\<close> again gives the suffixed
  path back.
\<close>

theorem append_elide_round_trip:
  assumes "isDirectory p" and "CHR ''/'' \<notin> set n" and "CHR ''/'' \<notin> set x"
  shows
    "snd (elideFile (snd (elideSuffix (snd (appendSuffix (snd (appendFile p n)) x))))) = p
     \<and> appendFile p n =
         (if isValid \<lparr>path = path p @ n\<rparr> then (True, \<lparr>path = path p @ n\<rparr>) else (False, p))
     \<and> snd (elideFile (snd (appendFile p n))) = p
     \<and> (fst (appendFile p n) \<and> n \<noteq> [] \<longrightarrow>
          elideFile (snd (appendFile p n)) = (True, p)
          \<and> appendFile (snd (elideFile (snd (appendFile p n)))) n
              = (True, snd (appendFile p n)))
     \<and> appendSuffix (snd (appendFile p n)) x =
         (if \<not> isDirectory (snd (appendFile p n))
             \<and> isValid \<lparr>path = path (snd (appendFile p n)) @ ''.'' @ x\<rparr>
          then (True, \<lparr>path = path (snd (appendFile p n)) @ ''.'' @ x\<rparr>)
          else (False, snd (appendFile p n)))
     \<and> (fst (appendSuffix (snd (appendFile p n)) x) \<and> CHR ''.'' \<notin> set x \<longrightarrow>
          elideSuffix (snd (appendSuffix (snd (appendFile p n)) x))
              = (True, snd (appendFile p n))
          \<and> appendSuffix (snd (elideSuffix (snd (appendSuffix (snd (appendFile p n)) x)))) x
              = (True, snd (appendSuffix (snd (appendFile p n)) x)))"
proof -
  let ?d = "butlast (path p)"
  let ?q = "snd (appendFile p n)"
  let ?r = "snd (appendSuffix ?q x)"
  from assms(1) have p: "path p = ?d @ ''/''" by (rule isDirectory_split)
  from appendFile_path [of p n] p assms(2)
  obtain m where m: "path ?q = ?d @ ''/'' @ m" "CHR ''/'' \<notin> set m"
    by (metis append.assoc append_Nil2 empty_iff list.set(1))
  have A: "snd (elideFile (snd (elideSuffix ?r))) = p"
    using assms by (rule append_elide_composition)
  have B: "appendFile p n =
         (if isValid \<lparr>path = path p @ n\<rparr> then (True, \<lparr>path = path p @ n\<rparr>) else (False, p))"
    using assms(1) by (rule appendFile_result)
  have C: "snd (elideFile ?q) = p"
  proof (rule Path_eqI)
    from elideFile_restores_directory [OF m] p show "path (snd (elideFile ?q)) = path p"
      by simp
  qed
  have D: "fst (appendFile p n) \<and> n \<noteq> [] \<longrightarrow>
          elideFile ?q = (True, p) \<and> appendFile (snd (elideFile ?q)) n = (True, ?q)"
  proof (intro impI conjI)
    assume h: "fst (appendFile p n) \<and> n \<noteq> []"
    with assms(1,2) show "elideFile ?q = (True, p)" by (intro appendFile_elideFile) simp_all
    from C h show "appendFile (snd (elideFile ?q)) n = (True, ?q)"
      by (simp add: prod_eq_iff)
  qed
  have E: "appendSuffix ?q x =
         (if \<not> isDirectory ?q \<and> isValid \<lparr>path = path ?q @ ''.'' @ x\<rparr>
          then (True, \<lparr>path = path ?q @ ''.'' @ x\<rparr>) else (False, ?q))"
    by (rule appendSuffix_result)
  have F: "fst (appendSuffix ?q x) \<and> CHR ''.'' \<notin> set x \<longrightarrow>
          elideSuffix ?r = (True, ?q) \<and> appendSuffix (snd (elideSuffix ?r)) x = (True, ?r)"
  proof (intro impI conjI)
    assume h: "fst (appendSuffix ?q x) \<and> CHR ''.'' \<notin> set x"
    with m assms(3) show e: "elideSuffix ?r = (True, ?q)"
      by (intro appendSuffix_elideSuffix [of ?q ?d m x]) simp_all
    from e h show "appendSuffix (snd (elideSuffix ?r)) x = (True, ?r)"
      by (simp add: prod_eq_iff)
  qed
  from A B C D E F show ?thesis by (intro conjI)
qed

theorem append_elide_round_trip_witness:
  "isDirectory \<lparr>path = ''/a/''\<rparr> \<and> CHR ''/'' \<notin> set ''b'' \<and> CHR ''/'' \<notin> set ''txt''
   \<and> CHR ''.'' \<notin> set ''txt''
   \<and> appendFile \<lparr>path = ''/a/''\<rparr> ''b'' = (True, \<lparr>path = ''/a/b''\<rparr>)
   \<and> appendSuffix \<lparr>path = ''/a/b''\<rparr> ''txt'' = (True, \<lparr>path = ''/a/b.txt''\<rparr>)
   \<and> elideSuffix \<lparr>path = ''/a/b.txt''\<rparr> = (True, \<lparr>path = ''/a/b''\<rparr>)
   \<and> elideFile \<lparr>path = ''/a/b''\<rparr> = (True, \<lparr>path = ''/a/''\<rparr>)
   \<and> snd (elideFile (snd (elideSuffix (snd (appendSuffix
            (snd (appendFile \<lparr>path = ''/a/''\<rparr> ''b'')) ''txt''))))) = \<lparr>path = ''/a/''\<rparr>"
proof -
  let ?p = "\<lparr>path = ''/a/''\<rparr>"
  have d: "isDirectory ?p" by code_simp
  have n: "CHR ''/'' \<notin> set ''b''" and x: "CHR ''/'' \<notin> set ''txt''"
    and xd: "CHR ''.'' \<notin> set ''txt''" by simp_all
  have v1: "isValid \<lparr>path = ''/a/b''\<rparr>" by code_simp
  have nd: "\<not> isDirectory \<lparr>path = ''/a/b''\<rparr>" by code_simp
  have v2: "isValid \<lparr>path = ''/a/b.txt''\<rparr>" by code_simp
  note t = append_elide_round_trip [OF d n x]
  from t v1 have a: "appendFile ?p ''b'' = (True, \<lparr>path = ''/a/b''\<rparr>)" by simp
  from t a nd v2 have b: "appendSuffix \<lparr>path = ''/a/b''\<rparr> ''txt'' = (True, \<lparr>path = ''/a/b.txt''\<rparr>)"
    by simp
  from t a b xd have c: "elideSuffix \<lparr>path = ''/a/b.txt''\<rparr> = (True, \<lparr>path = ''/a/b''\<rparr>)"
    by simp
  from t a have e: "elideFile \<lparr>path = ''/a/b''\<rparr> = (True, \<lparr>path = ''/a/''\<rparr>)" by simp
  from t have f: "snd (elideFile (snd (elideSuffix (snd (appendSuffix
            (snd (appendFile ?p ''b'')) ''txt''))))) = ?p" by (elim conjE)
  from d n x xd a b c e f show ?thesis by (intro conjI)
qed

section \<open>Appending and eliding a directory\<close>

text \<open>
  What \<open>elideDirectory\<close> does after a successful \<open>appendDirectory\<close> of a name without a
  separator: it erases from the \<open>/\<close> that ends \<open>p\<close>, so that what is left is \<open>p\<close> without its
  last character.
\<close>

lemma rfind_below:
  assumes "0 < k" and "k < length s"
  shows "rfind s c (k - 1) = rfind_loop s c k"
proof -
  from assms have "s \<noteq> []" and "Suc (min (length s - 1) (k - 1)) = k" by auto
  then show ?thesis by (simp add: rfind_def)
qed

lemma appendDirectory_elideDirectory:
  assumes "isDirectory p" and "CHR ''/'' \<notin> set n" and "fst (appendDirectory p n)"
  shows "elideDirectory (snd (appendDirectory p n)) = (True, \<lparr>path = butlast (path p)\<rparr>)"
proof -
  let ?d = "butlast (path p)"
  let ?q = "snd (appendDirectory p n)"
  from assms(1) have p: "path p = ?d @ ''/''" by (rule isDirectory_split)
  from assms(3) have v: "isValid ?q" and q0: "path ?q = path p @ n @ ''/''"
    by (auto simp: appendDirectory_def Let_def split: if_splits)
  from q0 p have q: "path ?q = ?d @ ''/'' @ n @ ''/''" by simp
  let ?s = "path ?q"
  let ?k = "length ?d + 1 + length n"
  from q have len: "length ?s = ?k + 1" by simp
  from q have "last ?s = CHR ''/''" by simp
  with v have nf: "\<not> isFile ?q" by (simp add: isFile_last)
  have "?s = (?d @ ''/'' @ n) @ CHR ''/'' # []" using q by simp
  with rfind_append_last [of "CHR ''/''" "[]" "?d @ ''/'' @ n"]
  have r1: "rfind ?s (CHR ''/'') (length ?s) = Some ?k" by simp
  have "rfind ?s (CHR ''/'') (?k - 1) = rfind_loop ?s (CHR ''/'') ?k"
    using len by (intro rfind_below) simp_all
  also have "\<dots> = Some (length ?d)"
  proof (rule rfind_loop_unique)
    show "length ?d < ?k" by simp
    show "?s ! length ?d = CHR ''/''" using q by (simp add: nth_append)
    show "\<forall>j. length ?d < j \<and> j < ?k \<longrightarrow> ?s ! j \<noteq> CHR ''/''"
    proof (intro allI impI)
      fix j assume j: "length ?d < j \<and> j < ?k"
      then obtain i where i: "j = Suc (length ?d) + i" and il: "i < length n"
        by (metis less_iff_Suc_add add_Suc add_Suc_right Suc_eq_plus1 nat_add_left_cancel_less Suc_less_eq)
      have "(?d @ ''/'' @ n @ ''/'') ! (Suc (length ?d) + i) = n ! i"
        using il by (simp add: nth_append)
      with q i have "?s ! j = n ! i" by simp
      with assms(2) il show "?s ! j \<noteq> CHR ''/''" by (metis nth_mem)
    qed
  qed
  finally have r2: "rfind ?s (CHR ''/'') (?k - 1) = Some (length ?d)" .
  have t: "take (length ?d) ?s = ?d" unfolding q by simp
  from nf r1 r2 len t show ?thesis
    by (simp add: elideDirectory_def erase_def Path_update)
qed

text \<open>
  Claim C2: \<open>appendDirectory n\<close> followed by \<open>elideDirectory\<close> restores a directory-mode
  \<open>p\<close> exactly. The code does not: on \<^verbatim>\<open>/a/\<close> with \<open>n\<close> = \<^verbatim>\<open>b\<close> the append gives \<^verbatim>\<open>/a/b/\<close> and
  the elision gives \<^verbatim>\<open>/a\<close>, a file-mode path; on the root \<^verbatim>\<open>/\<close> with \<open>n\<close> = \<^verbatim>\<open>a\<close> the elision
  gives the empty string. Both elisions return true.
\<close>

theorem appendDirectory_elideDirectory_drops_separator:
  "isDirectory \<lparr>path = ''/a/''\<rparr>
   \<and> appendDirectory \<lparr>path = ''/a/''\<rparr> ''b'' = (True, \<lparr>path = ''/a/b/''\<rparr>)
   \<and> elideDirectory \<lparr>path = ''/a/b/''\<rparr> = (True, \<lparr>path = ''/a''\<rparr>)
   \<and> isDirectory \<lparr>path = ''/''\<rparr>
   \<and> appendDirectory \<lparr>path = ''/''\<rparr> ''a'' = (True, \<lparr>path = ''/a/''\<rparr>)
   \<and> elideDirectory \<lparr>path = ''/a/''\<rparr> = (True, \<lparr>path = []\<rparr>)"
  by code_simp

section \<open>Library search\<close>

text \<open>
  The bare form \<open>basename\<close> is tried in the \<^verbatim>\<open>else if\<close> branch of \<^verbatim>\<open>IsLibrary\<close>, which is
  entered when \<^verbatim>\<open>appendFile("lib" + basename)\<close> has failed and \<^verbatim>\<open>elideFile()\<close> succeeds.
  After a successful \<open>setDirectory\<close> the Path is a directory or has no \<open>/\<close>, a failed
  \<open>appendFile\<close> leaves it so, and \<open>elideFile\<close> fails on both: the branch is never taken.
\<close>

lemma setDirectory_mode:
  assumes "fst (setDirectory q s)"
  shows "isDirectory (snd (setDirectory q s)) \<or> CHR ''/'' \<notin> set (path (snd (setDirectory q s)))"
proof -
  let ?r = "snd (setDirectory q s)"
  from assms have ne: "s \<noteq> []" and v: "isValid ?r"
    by (auto simp: setDirectory_def Let_def split: if_splits)
  show ?thesis
  proof (cases "length s - 1 \<noteq> 0 \<and> s ! (length s - 1) \<noteq> CHR ''/''")
    case True
    with assms have "path ?r = FlipBackSlashes s @ ''/''"
      by (auto simp: setDirectory_def Let_def split: if_splits)
    then have "last (path ?r) = CHR ''/''" by simp
    with v show ?thesis by (simp add: isDirectory_last)
  next
    case False
    with assms have r: "path ?r = FlipBackSlashes s"
      by (auto simp: setDirectory_def Let_def split: if_splits)
    from ne have ls: "last s = s ! (length s - 1)" by (rule last_conv_nth)
    from ne have "last (FlipBackSlashes s) = (if last s = CHR 0x5C then CHR ''/'' else last s)"
      by (simp add: FlipBackSlashes_def last_map)
    show ?thesis
    proof (cases "length s - 1 = 0")
      case True
      with ne obtain c where "s = [c]" by (cases s) auto
      with r have "path ?r = [if c = CHR 0x5C then CHR ''/'' else c]"
        by (simp add: FlipBackSlashes_def)
      with v show ?thesis by (auto simp: isDirectory_last)
    next
      case False
      with \<open>\<not> (length s - 1 \<noteq> 0 \<and> s ! (length s - 1) \<noteq> CHR ''/'')\<close> ls
      have "last s = CHR ''/''" by simp
      with ne r have "last (path ?r) = CHR ''/''"
        by (simp add: FlipBackSlashes_def last_map)
      with v show ?thesis by (simp add: isDirectory_last)
    qed
  qed
qed

lemma elideFile_fails:
  assumes "isDirectory p \<or> CHR ''/'' \<notin> set (path p)"
  shows "elideFile p = (False, p)"
  using assms by (auto simp: elideFile_def rfind_notin)

lemma IsLibrary_bare_form_unreachable:
  assumes "isDirectory p \<or> CHR ''/'' \<notin> set (path p)"
  shows "IsLibrary fs p basename =
     (let (f, p1) = appendFile p (''lib'' @ basename);
          (found, p') = (if f then probeSuffixes fs p1 else (False, p1))
      in if found then (True, p') else (False, clear p'))"
proof (cases "fst (appendFile p (''lib'' @ basename))")
  case True
  then show ?thesis by (simp add: IsLibrary_def case_prod_beta)
next
  case False
  then have "snd (appendFile p (''lib'' @ basename)) = p"
    by (auto simp: appendFile_def Let_def split: if_splits)
  with False elideFile_fails [OF assms] show ?thesis
    by (simp add: IsLibrary_def case_prod_beta)
qed

lemma tryDirectory_bare_form_unreachable:
  "tryDirectory fs basename result dir =
     (let (s, r1) = setDirectory result dir in
      if s then
        (let (f, p1) = appendFile r1 (''lib'' @ basename);
             (found, p') = (if f then probeSuffixes fs p1 else (False, p1))
         in if found then (True, p') else (False, clear p'))
      else (False, r1))"
proof (cases "fst (setDirectory result dir)")
  case True
  from IsLibrary_bare_form_unreachable [OF setDirectory_mode [OF True]] True
  show ?thesis by (simp add: tryDirectory_def case_prod_beta)
next
  case False
  then show ?thesis by (simp add: tryDirectory_def case_prod_beta)
qed

text \<open>
  Claim C4: in each directory \<open>GetLibraryPath\<close> probes the form \<open>lib<basename>\<close> and then
  the bare form \<open>basename\<close>, each with the suffixes \<^verbatim>\<open>dll\<close>, \<^verbatim>\<open>a\<close>, \<^verbatim>\<open>o\<close>, \<^verbatim>\<open>bc\<close>. The code
  never probes the bare form: with \<^verbatim>\<open>/x/foo.dll\<close> the only file, the search for \<^verbatim>\<open>foo\<close> in
  \<^verbatim>\<open>/x/\<close> returns the empty Path. (With \<^verbatim>\<open>/x/libfoo.a\<close> the only file it returns
  \<^verbatim>\<open>/x/libfoo.a\<close>, as the claim says.)
\<close>

theorem GetLibraryPath_skips_bare_form:
  "GetLibraryPath (\<lambda>s. s = ''/x/foo.dll'') ''foo'' [''/x/''] = \<lparr>path = []\<rparr>
   \<and> GetLibraryPath (\<lambda>s. s = ''/x/libfoo.a'') ''foo'' [''/x/''] = \<lparr>path = ''/x/libfoo.a''\<rparr>"
  by code_simp

end
